theory Spec2Isabelle
  imports Complex_Main
begin

section \<open>Python values used by preprocess_data\<close>

text \<open>
  Exceptions are values. A function of the source that can raise returns
  \<open>py_error + 'a\<close>, with \<open>Inl\<close> for the exception. Python's floats are idealised
  as exact rationals (\<open>rat\<close>): rounding, infinities and NaN are outside the model.
  A string is a list of code points below 256.
\<close>

datatype py_error =
  ValueError | IndexError | KeyError | TypeError | ZeroDivisionError | OverflowError
  | AxisError | OSError | OtherError

text \<open>\<open>xs[i]\<close> for a constant index \<open>i \<ge> 0\<close>.\<close>

definition py_index :: "'a list \<Rightarrow> nat \<Rightarrow> py_error + 'a" where
  "py_index xs i = (if i < length xs then Inr (xs ! i) else Inl IndexError)"

text \<open>The code points below 256 that \<open>str.isspace\<close> accepts.\<close>

definition py_isspace :: "char \<Rightarrow> bool" where
  "py_isspace c = (c \<in> set [CHR 0x09, CHR 0x0A, CHR 0x0B, CHR 0x0C, CHR 0x0D,
                              CHR 0x1C, CHR 0x1D, CHR 0x1E, CHR 0x1F, CHR '' '',
                              CHR 0x85, CHR 0xA0])"

text \<open>\<open>s.strip()\<close>\<close>

definition py_strip :: "string \<Rightarrow> string" where
  "py_strip s = rev (dropWhile py_isspace (rev (dropWhile py_isspace s)))"

text \<open>\<open>s.split(sep)\<close> for a one-character separator: every occurrence splits, so
  two separators in a row give an empty field and the result is never empty.\<close>

fun py_split :: "char \<Rightarrow> string \<Rightarrow> string list" where
  "py_split sep [] = [[]]"
| "py_split sep (c # cs) =
     (if c = sep then [] # py_split sep cs
      else (case py_split sep cs of [] \<Rightarrow> [[c]] | w # ws \<Rightarrow> (c # w) # ws))"

text \<open>\<open>sep.join(xs)\<close>\<close>

fun py_join :: "string \<Rightarrow> string list \<Rightarrow> string" where
  "py_join sep [] = []"
| "py_join sep [x] = x"
| "py_join sep (x # y # ys) = x @ sep @ py_join sep (y # ys)"

text \<open>
  \<open>int(s)\<close> on a string, base ten. The whitespace around the literal is dropped; for
  \<open>int\<close> that is the whitespace of C (\<open>0x09\<close> to \<open>0x0D\<close> and the space) and the two
  whitespace code points from 128 on, but not \<open>0x1C\<close> to \<open>0x1F\<close>, which only
  \<open>str.strip\<close> drops. One sign is allowed, then at least one digit; a single underscore
  may stand between two digits. A literal of more than \<open>max_str_digits\<close> digits is
  refused, where \<open>max_str_digits\<close> is \<open>sys.get_int_max_str_digits()\<close>: 4300 unless the
  interpreter is told otherwise, 0 for no limit (as before Python 3.11). Every digit
  counts, a leading zero too; signs, underscores and whitespace do not. \<open>None\<close> is the
  ValueError.
\<close>

definition int_isspace :: "char \<Rightarrow> bool" where
  "int_isspace c = (c \<in> set [CHR 0x09, CHR 0x0A, CHR 0x0B, CHR 0x0C, CHR 0x0D, CHR '' '',
                               CHR 0x85, CHR 0xA0])"

definition is_digit :: "char \<Rightarrow> bool" where
  "is_digit c = (c \<in> set ''0123456789'')"

definition digit_val :: "char \<Rightarrow> nat" where
  "digit_val c = of_char c - 48"

text \<open>The value read so far and the number of digits read so far.\<close>

fun int_digits :: "nat \<Rightarrow> nat \<Rightarrow> string \<Rightarrow> (nat \<times> nat) option" where
  "int_digits acc n [] = Some (acc, n)"
| "int_digits acc n (c # cs) =
     (if is_digit c then int_digits (acc * 10 + digit_val c) (Suc n) cs
      else if c = CHR ''_'' \<and> cs \<noteq> [] \<and> is_digit (hd cs) then int_digits acc n cs
      else None)"

definition int_literal :: "nat \<Rightarrow> string \<Rightarrow> nat option" where
  "int_literal max_str_digits s =
     (case s of [] \<Rightarrow> None
      | c # cs \<Rightarrow>
          if is_digit c
          then (case int_digits (digit_val c) 1 cs of None \<Rightarrow> None
                | Some (v, n) \<Rightarrow>
                    if max_str_digits \<noteq> 0 \<and> max_str_digits < n then None else Some v)
          else None)"

definition py_int :: "nat \<Rightarrow> string \<Rightarrow> int option" where
  "py_int max_str_digits s =
     (case rev (dropWhile int_isspace (rev (dropWhile int_isspace s))) of [] \<Rightarrow> None
      | c # cs \<Rightarrow>
          if c = CHR ''-'' then map_option (\<lambda>n. - int n) (int_literal max_str_digits cs)
          else if c = CHR ''+'' then map_option int (int_literal max_str_digits cs)
          else map_option int (int_literal max_str_digits (c # cs)))"

text \<open>
  \<open>a / b\<close> on two integers: the quotient as a float, rounded to the nearest. It raises
  OverflowError when the rounded quotient is no float, that is from
  \<open>2^1024 - 2^970\<close> on in absolute value (half a step beyond the greatest float).
  The float returned is idealised as the exact quotient.
\<close>

definition float_overflows :: "rat \<Rightarrow> bool" where
  "float_overflows q = (2 ^ 1024 - 2 ^ 970 \<le> \<bar>q\<bar>)"

definition py_truediv :: "int \<Rightarrow> int \<Rightarrow> py_error + rat" where
  "py_truediv a b =
     (if b = 0 then Inl ZeroDivisionError
      else if float_overflows (rat_of_int a / rat_of_int b) then Inl OverflowError
      else Inr (rat_of_int a / rat_of_int b))"

text \<open>A list comprehension whose element expression can raise: the first exception,
  in list order, ends it.\<close>

fun map_err :: "('a \<Rightarrow> py_error + 'b) \<Rightarrow> 'a list \<Rightarrow> py_error + 'b list" where
  "map_err f [] = Inr []"
| "map_err f (x # xs) =
     (case f x of Inl e \<Rightarrow> Inl e
      | Inr y \<Rightarrow> (case map_err f xs of Inl e \<Rightarrow> Inl e | Inr ys \<Rightarrow> Inr (y # ys)))"

section \<open>class Align\<close>

text \<open>An alignment record is the tuple \<open>(start, end, token)\<close>; the times are the
  quotients \<open>int / 1000\<close>.\<close>

type_synonym align_record = "rat \<times> rat \<times> string"

record align_obj =
  label_func :: "(string \<Rightarrow> py_error + int list) option"
  absolute_max_string_len :: int
  align :: "align_record list option"
  sentence :: "string option"
  label :: "int list option"
  padded_label :: "rat list option"

text \<open>\<open>Align.strip\<close>: \<open>[sub for sub in align if sub[2] not in items]\<close>\<close>

definition strip :: "align_record list \<Rightarrow> string list \<Rightarrow> align_record list" where
  "strip a items = [sub \<leftarrow> a. snd (snd sub) \<notin> set items]"

text \<open>\<open>Align.get_sentence\<close>:
  \<open>" ".join([y[-1] for y in align if y[-1] not in ['sp', 'sil']])\<close>\<close>

definition get_sentence :: "align_record list \<Rightarrow> string" where
  "get_sentence a =
     py_join '' '' (map (\<lambda>y. snd (snd y)) [y \<leftarrow> a. snd (snd y) \<notin> set [''sp'', ''sil'']])"

text \<open>\<open>Align.get_label\<close>: calling the default \<open>label_func = None\<close> is a TypeError.\<close>

definition get_label :: "align_obj \<Rightarrow> string \<Rightarrow> py_error + int list" where
  "get_label self s = (case label_func self of None \<Rightarrow> Inl TypeError | Some f \<Rightarrow> f s)"

text \<open>\<open>np.ones(n)\<close>: a negative dimension is a ValueError.\<close>

definition np_ones :: "int \<Rightarrow> py_error + rat list" where
  "np_ones n = (if n < 0 then Inl ValueError else Inr (replicate (nat n) 1))"

text \<open>\<open>Align.get_padded_label\<close>:
  \<open>padding = np.ones((self.absolute_max_string_len-len(label))) * -1\<close>, then
  \<open>np.concatenate((np.array(label), padding), axis=0)\<close>. The result is a float array.\<close>

definition get_padded_label :: "align_obj \<Rightarrow> int list \<Rightarrow> py_error + rat list" where
  "get_padded_label self lbl =
     (case np_ones (absolute_max_string_len self - int (length lbl)) of
        Inl e \<Rightarrow> Inl e
      | Inr ones \<Rightarrow> Inr (map rat_of_int lbl @ map (\<lambda>x. x * (- 1)) ones))"

text \<open>\<open>Align.build\<close>: four assignments in order. The result is the object as the call
  leaves it and the exception, if one was raised; the fields assigned before a raise
  stay assigned.\<close>

definition build :: "align_obj \<Rightarrow> align_record list \<Rightarrow> align_obj \<times> py_error option" where
  "build self a =
     (let self1 = self\<lparr>align := Some (strip a [''sp'', ''sil''])\<rparr>;
          self2 = self1\<lparr>sentence := Some (get_sentence a)\<rparr>
      in case get_label self2 (get_sentence a) of
           Inl e \<Rightarrow> (self2, Some e)
         | Inr l \<Rightarrow>
             (let self3 = self2\<lparr>label := Some l\<rparr>
              in case get_padded_label self3 l of
                   Inl e \<Rightarrow> (self3, Some e)
                 | Inr p \<Rightarrow> (self3\<lparr>padded_label := Some p\<rparr>, None)))"

text \<open>The element expression of the comprehension in \<open>Align.from_file\<close>:
  \<open>(int(y[0])/1000, int(y[1])/1000, y[2])\<close>, evaluated left to right.\<close>

definition align_entry :: "nat \<Rightarrow> string list \<Rightarrow> py_error + align_record" where
  "align_entry max_str_digits y =
     (case py_index y 0 of Inl e \<Rightarrow> Inl e
      | Inr y0 \<Rightarrow>
     (case py_int max_str_digits y0 of None \<Rightarrow> Inl ValueError
      | Some t0 \<Rightarrow>
     (case py_truediv t0 1000 of Inl e \<Rightarrow> Inl e
      | Inr s0 \<Rightarrow>
     (case py_index y 1 of Inl e \<Rightarrow> Inl e
      | Inr y1 \<Rightarrow>
     (case py_int max_str_digits y1 of None \<Rightarrow> Inl ValueError
      | Some t1 \<Rightarrow>
     (case py_truediv t1 1000 of Inl e \<Rightarrow> Inl e
      | Inr s1 \<Rightarrow>
     (case py_index y 2 of Inl e \<Rightarrow> Inl e
      | Inr tok \<Rightarrow> Inr (s0, s1, tok))))))))"

text \<open>The comprehension of \<open>Align.from_file\<close> over the lines \<open>file.readlines()\<close>
  returned: \<open>for y in [x.strip().split(" ") for x in lines]\<close>.\<close>

definition read_align :: "nat \<Rightarrow> string list \<Rightarrow> py_error + align_record list" where
  "read_align max_str_digits lines =
     map_err (align_entry max_str_digits) (map (\<lambda>x. py_split CHR '' '' (py_strip x)) lines)"

text \<open>\<open>Align.from_file\<close>, given the lines read from the file and the interpreter's
  \<open>max_str_digits\<close>.\<close>

definition from_file ::
  "nat \<Rightarrow> align_obj \<Rightarrow> string list \<Rightarrow> align_obj \<times> py_error option" where
  "from_file max_str_digits self lines =
     (case read_align max_str_digits lines of
        Inl e \<Rightarrow> (self, Some e)
      | Inr a \<Rightarrow> build self a)"

section \<open>Arrays\<close>

text \<open>
  A numpy array is its shape and its element at each index (one number per axis); a view
  such as \<open>swapaxes\<close> is the same elements read through permuted indices. \<open>item a idx\<close>
  means something only for an index within \<open>shape a\<close>.
\<close>

record 'a ndarray =
  shape :: "nat list"
  item :: "nat list \<Rightarrow> 'a"

definition ndim :: "'a ndarray \<Rightarrow> nat" where
  "ndim a = length (shape a)"

definition swap_idx :: "nat \<Rightarrow> nat \<Rightarrow> 'b list \<Rightarrow> 'b list" where
  "swap_idx i j xs = xs[i := xs ! j, j := xs ! i]"

text \<open>\<open>a.swapaxes(i, j)\<close>: an axis the array does not have is an AxisError.\<close>

definition swapaxes :: "'a ndarray \<Rightarrow> nat \<Rightarrow> nat \<Rightarrow> py_error + 'a ndarray" where
  "swapaxes a i j =
     (if i < ndim a \<and> j < ndim a
      then Inr \<lparr>shape = swap_idx i j (shape a), item = (\<lambda>idx. item a (swap_idx i j idx))\<rparr>
      else Inl AxisError)"

text \<open>\<open>np.array(list_of_arrays)\<close>: arrays of one shape are stacked along a new first
  axis; the empty list gives an array of shape \<open>(0,)\<close>. Arrays of different shapes are
  not stacked (an error or an array of objects, by numpy version): \<open>ValueError\<close> here.\<close>

definition np_array :: "'a ndarray list \<Rightarrow> py_error + 'a ndarray" where
  "np_array xs =
     (case xs of
        [] \<Rightarrow> Inr \<lparr>shape = [0], item = (\<lambda>idx. undefined)\<rparr>
      | x # _ \<Rightarrow>
          if list_all (\<lambda>y. shape y = shape x) xs
          then Inr \<lparr>shape = length xs # shape x, item = (\<lambda>idx. item (xs ! hd idx) (tl idx))\<rparr>
          else Inl ValueError)"

text \<open>\<open>np.rollaxis(a, axis)\<close>, with \<open>start = 0\<close>: the axis moves to the front.\<close>

definition rollaxis :: "'a ndarray \<Rightarrow> nat \<Rightarrow> py_error + 'a ndarray" where
  "rollaxis a axis =
     (if axis < ndim a
      then Inr \<lparr>shape = shape a ! axis # take axis (shape a) @ drop (Suc axis) (shape a),
                item = (\<lambda>idx. item a (take axis (tl idx) @ hd idx # drop axis (tl idx)))\<rparr>
      else Inl AxisError)"

text \<open>The bounds of a slice \<open>start:stop\<close> on an axis of length \<open>n\<close>: a negative bound
  counts from the end, and both are clipped to the axis.\<close>

definition slice_bound :: "nat \<Rightarrow> int \<Rightarrow> nat" where
  "slice_bound n i = nat (max 0 (min (int n) (if i < 0 then i + int n else i)))"

text \<open>\<open>a[t:b, l:r]\<close>: needs two axes (IndexError otherwise).\<close>

definition crop2 :: "'a ndarray \<Rightarrow> int \<Rightarrow> int \<Rightarrow> int \<Rightarrow> int \<Rightarrow> py_error + 'a ndarray" where
  "crop2 a t b l r =
     (case shape a of
        h # w # rest \<Rightarrow>
          (let t' = slice_bound h t; b' = slice_bound h b;
               l' = slice_bound w l; r' = slice_bound w r
           in Inr \<lparr>shape = (b' - t') # (r' - l') # rest,
                   item = (\<lambda>idx. item a ((hd idx + t') # (hd (tl idx) + l') # tl (tl idx)))\<rparr>)
      | _ \<Rightarrow> Inl IndexError)"

text \<open>\<open>int(x)\<close> on a float: towards zero.\<close>

definition py_trunc :: "rat \<Rightarrow> int" where
  "py_trunc q = (if 0 \<le> q then \<lfloor>q\<rfloor> else \<lceil>q\<rceil>)"

text \<open>\<open>np.mean\<close> of a non-empty column of integers.\<close>

definition np_mean :: "int list \<Rightarrow> rat" where
  "np_mean xs = rat_of_int (sum_list xs) / rat_of_nat (length xs)"

section \<open>class Video\<close>

record 'a video =
  face_predictor_path :: "string option"
  vtype :: string
  face :: "'a ndarray option"
  mouth :: "'a ndarray option"
  data :: "'a ndarray option"
  length_v :: "nat option"

subsection \<open>Video.get\_frames\_mouth\<close>

text \<open>
  The detector, the predictor and \<open>imresize\<close> are library code and are parameters:
  \<open>detector frame\<close> is the list \<open>detector(frame, 1)\<close>, \<open>predictor frame det\<close> the
  points \<open>predictor(frame, det).parts()\<close>, and \<open>imresize frame (h, w)\<close> the resized
  image or the exception it raises.
\<close>

definition mouth_width :: rat where "mouth_width = 100"
definition mouth_height :: rat where "mouth_height = 50"
definition horizontal_pad :: rat where "horizontal_pad = 19 / 100"

text \<open>\<open>shape = None\<close>, then \<open>for det in dets: shape = predictor(frame, det)\<close>: the
  shape of the last detection, or \<open>None\<close>.\<close>

definition detect_shape ::
  "('a ndarray \<Rightarrow> 'd list) \<Rightarrow> ('a ndarray \<Rightarrow> 'd \<Rightarrow> (int \<times> int) list) \<Rightarrow> 'a ndarray
     \<Rightarrow> (int \<times> int) list option" where
  "detect_shape detector predictor frame =
     foldl (\<lambda>shp det. Some (predictor frame det)) None (detector frame)"

text \<open>The loop over \<open>shape.parts()\<close> with the counter \<open>i\<close> from \<open>-1\<close>: the parts
  numbered 48 and above.\<close>

definition mouth_points :: "(int \<times> int) list \<Rightarrow> (int \<times> int) list" where
  "mouth_points parts = map snd [ip \<leftarrow> enumerate 0 parts. \<not> fst ip < 48]"

text \<open>The body of \<open>if normalize_ratio is None\<close>. The division is by a Python float,
  so a zero divisor raises.\<close>

definition normalize_ratio_of :: "(int \<times> int) list \<Rightarrow> py_error + rat" where
  "normalize_ratio_of pts =
     (let mouth_left = rat_of_int (Min (set (map fst pts))) * (1 - horizontal_pad);
          mouth_right = rat_of_int (Max (set (map fst pts))) * (1 + horizontal_pad)
      in if mouth_right - mouth_left = 0 then Inl ZeroDivisionError
         else Inr (mouth_width / (mouth_right - mouth_left)))"

text \<open>The rest of the loop body, from \<open>new_img_shape\<close> to the crop, for a ratio
  \<open>r\<close> and the frame's own mouth points (its centroid is theirs).\<close>

definition mouth_crop ::
  "('a ndarray \<Rightarrow> int \<times> int \<Rightarrow> py_error + 'a ndarray) \<Rightarrow> rat \<Rightarrow> 'a ndarray
     \<Rightarrow> (int \<times> int) list \<Rightarrow> py_error + 'a ndarray" where
  "mouth_crop imresize r frame pts =
     (let cx = np_mean (map fst pts); cy = np_mean (map snd pts)
      in case py_index (shape frame) 0 of Inl e \<Rightarrow> Inl e
         | Inr h \<Rightarrow>
        (case py_index (shape frame) 1 of Inl e \<Rightarrow> Inl e
         | Inr w \<Rightarrow>
        (case imresize frame (py_trunc (rat_of_nat h * r), py_trunc (rat_of_nat w * r)) of
           Inl e \<Rightarrow> Inl e
         | Inr resized_img \<Rightarrow>
             crop2 resized_img
               (py_trunc (cy * r - mouth_height / 2)) (py_trunc (cy * r + mouth_height / 2))
               (py_trunc (cx * r - mouth_width / 2)) (py_trunc (cx * r + mouth_width / 2)))))"

text \<open>One pass of the loop body after a shape was found: the new value of
  \<open>normalize_ratio\<close> and the cropped image. With no mouth point the array of points
  has one axis and indexing it with two raises IndexError.\<close>

definition frame_step ::
  "('a ndarray \<Rightarrow> int \<times> int \<Rightarrow> py_error + 'a ndarray) \<Rightarrow> rat option \<Rightarrow> 'a ndarray
     \<Rightarrow> (int \<times> int) list \<Rightarrow> py_error + rat option \<times> 'a ndarray" where
  "frame_step imresize normalize_ratio frame parts =
     (let pts = mouth_points parts
      in if pts = [] then Inl IndexError
         else (case (case normalize_ratio of None \<Rightarrow> normalize_ratio_of pts
                     | Some r \<Rightarrow> Inr r) of
                 Inl e \<Rightarrow> Inl e
               | Inr r \<Rightarrow>
                   (case mouth_crop imresize r frame pts of
                      Inl e \<Rightarrow> Inl e
                    | Inr mouth_crop_image \<Rightarrow> Inr (Some r, mouth_crop_image))))"

text \<open>The loop \<open>for frame in frames\<close>; \<open>frames\<close> is the whole input, returned as it
  is when a frame has no shape.\<close>

fun mouth_loop ::
  "('a ndarray \<Rightarrow> 'd list) \<Rightarrow> ('a ndarray \<Rightarrow> 'd \<Rightarrow> (int \<times> int) list)
     \<Rightarrow> ('a ndarray \<Rightarrow> int \<times> int \<Rightarrow> py_error + 'a ndarray) \<Rightarrow> 'a ndarray list
     \<Rightarrow> rat option \<Rightarrow> 'a ndarray list \<Rightarrow> 'a ndarray list \<Rightarrow> py_error + 'a ndarray list" where
  "mouth_loop detector predictor imresize frames normalize_ratio mouth_frames [] =
     Inr mouth_frames"
| "mouth_loop detector predictor imresize frames normalize_ratio mouth_frames (frame # rest) =
     (case detect_shape detector predictor frame of
        None \<Rightarrow> Inr frames
      | Some parts \<Rightarrow>
          (case frame_step imresize normalize_ratio frame parts of
             Inl e \<Rightarrow> Inl e
           | Inr (normalize_ratio', mouth_crop_image) \<Rightarrow>
               mouth_loop detector predictor imresize frames normalize_ratio'
                 (mouth_frames @ [mouth_crop_image]) rest))"

definition get_frames_mouth ::
  "('a ndarray \<Rightarrow> 'd list) \<Rightarrow> ('a ndarray \<Rightarrow> 'd \<Rightarrow> (int \<times> int) list)
     \<Rightarrow> ('a ndarray \<Rightarrow> int \<times> int \<Rightarrow> py_error + 'a ndarray) \<Rightarrow> 'a ndarray list
     \<Rightarrow> py_error + 'a ndarray list" where
  "get_frames_mouth detector predictor imresize frames =
     mouth_loop detector predictor imresize frames None [] frames"

subsection \<open>Video.set\_data\<close>

text \<open>The body of the loop of \<open>set_data\<close> for one frame.\<close>

definition data_frame :: "'a ndarray \<Rightarrow> py_error + 'a ndarray" where
  "data_frame frame =
     (case swapaxes frame 0 1 of Inl e \<Rightarrow> Inl e
      | Inr frame1 \<Rightarrow>
          if ndim frame1 < 3
          then (case np_array [frame1] of Inl e \<Rightarrow> Inl e
                | Inr a \<Rightarrow>
                    (case swapaxes a 0 2 of Inl e \<Rightarrow> Inl e | Inr b \<Rightarrow> swapaxes b 0 1))
          else Inr frame1)"

definition set_data :: "'a video \<Rightarrow> 'a ndarray list \<Rightarrow> 'a video \<times> py_error option" where
  "set_data self frames =
     (case map_err data_frame frames of Inl e \<Rightarrow> (self, Some e)
      | Inr data_frames \<Rightarrow>
          (let frames_n = length data_frames
           in case np_array data_frames of Inl e \<Rightarrow> (self, Some e)
              | Inr a \<Rightarrow>
             (case rollaxis a 3 of Inl e \<Rightarrow> (self, Some e)
              | Inr b \<Rightarrow>
             (case swapaxes b 2 3 of Inl e \<Rightarrow> (self, Some e)
              | Inr c \<Rightarrow> (self\<lparr>data := Some c, length_v := Some frames_n\<rparr>, None)))))"

section \<open>preprocess\<close>

text \<open>\<open>str(i)\<close> for an integer.\<close>

fun nat_digits :: "nat \<Rightarrow> string" where
  "nat_digits n =
     (if n < 10 then [char_of (48 + n)] else nat_digits (n div 10) @ [char_of (48 + n mod 10)])"

declare nat_digits.simps [simp del]

definition py_str :: "int \<Rightarrow> string" where
  "py_str i = (if i < 0 then CHR ''-'' # nat_digits (nat (- i)) else nat_digits (nat i))"

text \<open>\<open>os.path.join(a, b)\<close> on POSIX.\<close>

definition os_path_join :: "string \<Rightarrow> string \<Rightarrow> string" where
  "os_path_join a b =
     (if b \<noteq> [] \<and> hd b = CHR ''/'' then b
      else if a = [] \<or> last a = CHR ''/'' then a @ b
      else a @ ''/'' @ b)"

text \<open>
  The world outside the program (the file system and the libraries that read and write
  it) is a state \<open>'w\<close> and three operations on it:
  \<^item> \<open>os_walk w directory\<close>: the pairs \<open>(root, files)\<close> that \<open>os.walk(directory)\<close>
    yields; it raises nothing (errors of the directory scan are ignored by default);
  \<^item> \<open>fnmatch basename pattern\<close>: \<open>fnmatch.fnmatch\<close>;
  \<^item> \<open>process_video w filepath target_path\<close>: the body of the loop over the files of
    one index (decode the video, crop the mouth, make the target directory, save the
    images), with the exception it raises, if any.
  The generator \<open>find_files\<close> is taken as the list of what it yields.
\<close>

record 'w env =
  os_walk :: "'w \<Rightarrow> string \<Rightarrow> 'w \<times> (string \<times> string list) list"
  fnmatch :: "string \<Rightarrow> string \<Rightarrow> bool"
  process_video :: "'w \<Rightarrow> string \<Rightarrow> string \<Rightarrow> 'w \<times> py_error option"

definition find_files :: "'w env \<Rightarrow> 'w \<Rightarrow> string \<Rightarrow> string \<Rightarrow> 'w \<times> string list" where
  "find_files E w directory pattern =
     (case os_walk E w directory of
        (w', tree) \<Rightarrow>
          (w', concat (map (\<lambda>(root, files).
                  map (os_path_join root) [basename \<leftarrow> files. fnmatch E basename pattern])
                tree)))"

text \<open>\<open>for filepath in find_files(...)\<close>: the first exception ends the loop.\<close>

fun process_files :: "'w env \<Rightarrow> string \<Rightarrow> 'w \<Rightarrow> string list \<Rightarrow> 'w \<times> py_error option" where
  "process_files E target_path w [] = (w, None)"
| "process_files E target_path w (filepath # rest) =
     (case process_video E w filepath target_path of
        (w', Some e) \<Rightarrow> (w', Some e)
      | (w', None) \<Rightarrow> process_files E target_path w' rest)"

text \<open>The body of \<open>try\<close> for one index, up to \<open>succ.add(idx)\<close>.\<close>

definition try_index :: "'w env \<Rightarrow> string \<Rightarrow> 'w \<Rightarrow> string \<Rightarrow> 'w \<times> py_error option" where
  "try_index E target_path w source_path =
     (case find_files E w source_path ''*.mpg'' of
        (w', files) \<Rightarrow> process_files E target_path w' files)"

text \<open>The loop \<open>for idx in range(from_idx, to_idx)\<close> on the state
  \<open>(source_path, succ, fail)\<close>. \<open>except OSError\<close> catches OSError only: any other
  exception leaves \<open>preprocess\<close>.\<close>

fun preprocess_loop ::
  "'w env \<Rightarrow> string \<Rightarrow> 'w \<Rightarrow> string \<times> int set \<times> int set \<Rightarrow> int list
     \<Rightarrow> 'w \<times> (py_error + string \<times> int set \<times> int set)" where
  "preprocess_loop E target_path w st [] = (w, Inr st)"
| "preprocess_loop E target_path w (source_path, succ, fail) (idx # rest) =
     (let source_path' = source_path @ ''/'' @ ''s'' @ py_str idx @ ''/''
      in case try_index E target_path w source_path' of
           (w', None) \<Rightarrow>
             preprocess_loop E target_path w' (source_path', insert idx succ, fail) rest
         | (w', Some e) \<Rightarrow>
             if e = OSError
             then preprocess_loop E target_path w' (source_path', succ, insert idx fail) rest
             else (w', Inl e))"

text \<open>\<open>preprocess(from_idx, to_idx, _params)\<close>; \<open>_params\<close> is a dictionary.\<close>

definition preprocess ::
  "'w env \<Rightarrow> 'w \<Rightarrow> int \<Rightarrow> int \<Rightarrow> (string \<rightharpoonup> string) \<Rightarrow> 'w \<times> (py_error + int set \<times> int set)" where
  "preprocess E w from_idx to_idx params =
     (case params ''src_path'' of None \<Rightarrow> (w, Inl KeyError)
      | Some source_path \<Rightarrow>
     (case params ''tgt_path'' of None \<Rightarrow> (w, Inl KeyError)
      | Some target_path \<Rightarrow>
     (case preprocess_loop E target_path w (source_path, {}, {}) [from_idx..to_idx - 1] of
        (w', Inl e) \<Rightarrow> (w', Inl e)
      | (w', Inr (source_path', succ, fail)) \<Rightarrow> (w', Inr (succ, fail)))))"

section \<open>Notions used in the statements\<close>

text \<open>A time field that \<open>Align.from_file\<close> accepts: \<open>int\<close> accepts it and the
  integer divided by 1000 is not too large for a float.\<close>

definition time_field_ok :: "nat \<Rightarrow> string \<Rightarrow> bool" where
  "time_field_ok max_str_digits s =
     (case py_int max_str_digits s of None \<Rightarrow> False
      | Some t \<Rightarrow> \<not> float_overflows (rat_of_int t / 1000))"

text \<open>A line of an alignment file that \<open>Align.from_file\<close> accepts: stripped and split
  at single spaces it has three fields or more, and the first two are time fields it
  accepts.\<close>

definition well_formed_line :: "nat \<Rightarrow> string \<Rightarrow> bool" where
  "well_formed_line max_str_digits x =
     (let y = py_split CHR '' '' (py_strip x)
      in 3 \<le> length y \<and> time_field_ok max_str_digits (y ! 0)
           \<and> time_field_ok max_str_digits (y ! 1))"

text \<open>The record of such a line: both times divided by 1000, and the third field.\<close>

definition seconds_entry :: "nat \<Rightarrow> string \<Rightarrow> align_record" where
  "seconds_entry max_str_digits x =
     (let y = py_split CHR '' '' (py_strip x)
      in (rat_of_int (the (py_int max_str_digits (y ! 0))) / 1000,
          rat_of_int (the (py_int max_str_digits (y ! 1))) / 1000, y ! 2))"



section \<open>Example inputs\<close>

text \<open>An \<open>Align\<close> object as the constructor leaves it, with a label function that maps
  each character to its code, and room for five labels.\<close>

definition align_example :: align_obj where
  "align_example =
     \<lparr>label_func = Some (\<lambda>s. Inr (map (\<lambda>c. int (of_char c)) s)),
      absolute_max_string_len = 5, align = None, sentence = None, label = None,
      padded_label = None\<rparr>"

text \<open>The dictionary \<open>{'src_path': 'data', 'tgt_path': 'out'}\<close>.\<close>

definition params_example :: "string \<rightharpoonup> string" where
  "params_example = [''src_path'' \<mapsto> ''data'', ''tgt_path'' \<mapsto> ''out'']"

text \<open>A disk with \<open>data/s1/a.mpg\<close>, \<open>data/s1/notes.txt\<close> and \<open>data/s2/b.mpg\<close>, on which
  every video is processed without error. The world records the directories walked and
  the videos processed, in order.\<close>

definition disk_example :: "(string list \<times> string list) env" where
  "disk_example =
     \<lparr>os_walk = (\<lambda>w d. ((fst w @ [d], snd w),
          if d = ''data/s1/'' then [(d, [''a.mpg'', ''notes.txt''])]
          else if d = ''data/s2/'' then [(d, [''b.mpg''])] else [])),
      fnmatch = (\<lambda>b p. p = ''*.mpg'' \<and> drop (length b - 4) b = ''.mpg''),
      process_video = (\<lambda>w f t. ((fst w, snd w @ [f]), None))\<rparr>"

text \<open>A disk with \<open>data/s1/a.mpg\<close> and \<open>data/s1/locked.mpg\<close>; processing the second
  raises OSError. The world records the videos whose processing was started.\<close>

definition faulty_disk :: "string list env" where
  "faulty_disk =
     \<lparr>os_walk = (\<lambda>w d. (w, if d = ''data/s1/'' then [(d, [''a.mpg'', ''locked.mpg''])] else [])),
      fnmatch = (\<lambda>b p. p = ''*.mpg'' \<and> drop (length b - 4) b = ''.mpg''),
      process_video =
        (\<lambda>w f t. (w @ [f], if f = ''data/s1/locked.mpg'' then Some OSError else None))\<rparr>"

text \<open>A grey frame of 100 by 100 pixels, every pixel \<open>k\<close>.\<close>

definition frame_example :: "nat \<Rightarrow> nat ndarray" where
  "frame_example k = \<lparr>shape = [100, 100], item = (\<lambda>idx. k)\<rparr>"

text \<open>A detector that finds one face in a frame whose first pixel is 0 and none in any
  other frame, and one that finds one face in every frame.\<close>

definition first_only_detector :: "nat ndarray \<Rightarrow> unit list" where
  "first_only_detector f = (if item f [0, 0] = 0 then [()] else [])"

definition always_detector :: "nat ndarray \<Rightarrow> unit list" where
  "always_detector f = [()]"

text \<open>Predictors of 68 landmarks. The twenty mouth points of the first lie at
  \<open>x = 20\<close> and \<open>x = 80\<close>, with centroid \<open>(50, 50)\<close>; those of the second all lie
  at \<open>x = 0\<close>; those of the third are the first's, moved right by the value of the
  frame's first pixel.\<close>

definition mouth_predictor :: "nat ndarray \<Rightarrow> unit \<Rightarrow> (int \<times> int) list" where
  "mouth_predictor f d = replicate 48 (0, 0) @ replicate 10 (20, 50) @ replicate 10 (80, 50)"

definition degenerate_predictor :: "nat ndarray \<Rightarrow> unit \<Rightarrow> (int \<times> int) list" where
  "degenerate_predictor f d = replicate 48 (0, 0) @ replicate 20 (0, 50)"

definition moving_predictor :: "nat ndarray \<Rightarrow> unit \<Rightarrow> (int \<times> int) list" where
  "moving_predictor f d =
     replicate 48 (0, 0) @ replicate 10 (20 + int (item f [0, 0]), 50)
       @ replicate 10 (80 + int (item f [0, 0]), 50)"

text \<open>A resize that gives an image of the size asked for, and refuses a size that is
  not positive.\<close>

definition resize_example :: "nat ndarray \<Rightarrow> int \<times> int \<Rightarrow> py_error + nat ndarray" where
  "resize_example f sz =
     (if fst sz \<le> 0 \<or> snd sz \<le> 0 then Inl ValueError
      else Inr \<lparr>shape = [nat (fst sz), nat (snd sz)], item = item f\<rparr>)"

text \<open>Clips of three frames.\<close>

definition clip_example :: "nat ndarray list" where
  "clip_example = [frame_example 0, frame_example 1, frame_example 2]"

definition moving_clip :: "nat ndarray list" where
  "moving_clip = [frame_example 0, frame_example 2, frame_example 4]"

text \<open>Two frames of 2 by 3 pixels without a channel axis, and two with three channels;
  the element at an index is the index itself, after the number of the frame.\<close>

definition grey_frames :: "nat list ndarray list" where
  "grey_frames = [\<lparr>shape = [2, 3], item = (\<lambda>idx. 0 # idx)\<rparr>,
                  \<lparr>shape = [2, 3], item = (\<lambda>idx. 1 # idx)\<rparr>]"

definition colour_frames :: "nat list ndarray list" where
  "colour_frames = [\<lparr>shape = [2, 3, 3], item = (\<lambda>idx. 0 # idx)\<rparr>,
                    \<lparr>shape = [2, 3, 3], item = (\<lambda>idx. 1 # idx)\<rparr>]"

text \<open>A \<open>Video\<close> object as the constructor leaves it.\<close>

definition video_example :: "nat list video" where
  "video_example = \<lparr>face_predictor_path = None, vtype = ''mouth'', face = None, mouth = None,
     data = None, length_v = None\<rparr>"

section \<open>Properties of class Align\<close>

lemma map_err_Inr:
  "(\<And>x. x \<in> set xs \<Longrightarrow> f x = Inr (g x)) \<Longrightarrow> map_err f xs = Inr (map g xs)"
  by (induction xs) auto

lemma map_err_Inl:
  "x \<in> set xs \<Longrightarrow> f x = Inl e \<Longrightarrow> \<exists>e'. map_err f xs = Inl e'"
  by (induction xs) (auto split: sum.splits)

subsection \<open>Joining and splitting\<close>

lemma py_split_no_sep: "sep \<notin> set x \<Longrightarrow> py_split sep x = [x]"
  by (induction x) auto

lemma py_split_append_sep:
  "sep \<notin> set x \<Longrightarrow> py_split sep (x @ sep # r) = x # py_split sep r"
  by (induction x) auto

text \<open>Joining with one separator is undone by splitting at it, for fields that do not
  hold the separator.\<close>

lemma py_split_join:
  "ts \<noteq> [] \<Longrightarrow> (\<And>t. t \<in> set ts \<Longrightarrow> sep \<notin> set t)
     \<Longrightarrow> py_split sep (py_join [sep] ts) = ts"
  by (induction "[sep]" ts rule: py_join.induct)
     (auto simp: py_split_no_sep py_split_append_sep)

subsection \<open>Evaluating the reading step\<close>

text \<open>The quotient by 1000 overflows from \<open>(2^1024 - 2^970) * 1000\<close> on.\<close>

lemma float_overflows_int:
  "float_overflows (rat_of_int a / 1000) \<longleftrightarrow> (2 ^ 1024 - 2 ^ 970) * 1000 \<le> \<bar>a\<bar>"
proof -
  have "float_overflows (rat_of_int a / 1000)
      \<longleftrightarrow> rat_of_int ((2 ^ 1024 - 2 ^ 970) * 1000) \<le> rat_of_int \<bar>a\<bar>"
    by (simp add: float_overflows_def abs_divide le_divide_eq)
  then show ?thesis by (simp only: of_int_le_iff)
qed

lemma py_truediv_small:
  assumes "\<bar>a\<bar> < 10 ^ 300"
  shows "py_truediv a 1000 = Inr (rat_of_int a / 1000)"
proof -
  have "(10 :: int) ^ 300 \<le> (2 ^ 1024 - 2 ^ 970) * 1000" by simp
  with assms have "\<not> float_overflows (rat_of_int a / 1000)"
    unfolding float_overflows_int by linarith
  then show ?thesis by (simp add: py_truediv_def)
qed

lemma py_int_examples:
  "py_int 4300 ''0'' = Some 0" "py_int 4300 ''1000'' = Some 1000"
  "py_int 4300 ''2000'' = Some 2000" "py_int 4300 ''2500'' = Some 2500"
  "py_int 0 ''0'' = Some 0" "py_int 0 ''1000'' = Some 1000"
  "py_int 0 ''2000'' = Some 2000" "py_int 0 ''2500'' = Some 2500"
  "py_int 4300 ''x'' = None" "py_int 4300 ''5'' = Some 5"
  by code_simp+

lemma split_examples:
  "py_split CHR '' '' (py_strip ''0 1000 sp'') = [''0'', ''1000'', ''sp'']"
  "py_split CHR '' '' (py_strip ''1000 2000 hello'') = [''1000'', ''2000'', ''hello'']"
  "py_split CHR '' '' (py_strip ''2000 2500 sil'') = [''2000'', ''2500'', ''sil'']"
  "py_split CHR '' '' (py_strip ''0 1000 hello world'')
     = [''0'', ''1000'', ''hello'', ''world'']"
  "py_split CHR '' '' (py_strip ''x 5 y'') = [''x'', ''5'', ''y'']"
  by code_simp+

text \<open>A literal of nines: its value, and the limit on its digits.\<close>

lemma int_digits_nines:
  "int_digits acc n (replicate k (CHR ''9'')) = Some (acc * 10 ^ k + (10 ^ k - 1), n + k)"
proof (induction k arbitrary: acc n)
  case 0
  show ?case by simp
next
  case (Suc k)
  have pos: "(1 :: nat) \<le> 10 ^ k" by simp
  have "(acc * 10 + 9) * 10 ^ k + (10 ^ k - 1) = acc * 10 ^ Suc k + (10 ^ Suc k - 1)"
    using pos by (simp add: algebra_simps)
  then show ?case by (simp add: Suc.IH is_digit_def digit_val_def)
qed

lemma py_int_nines:
  "py_int mx (replicate (Suc k) (CHR ''9''))
     = (if mx \<noteq> 0 \<and> mx < Suc k then None else Some (10 ^ Suc k - 1))"
proof -
  have pos: "(1 :: nat) \<le> 10 ^ k" by simp
  then have "9 * 10 ^ k + (10 ^ k - 1) = (10 :: nat) ^ Suc k - 1" by simp
  then have nines: "int_digits 9 (Suc 0) (replicate k (CHR ''9''))
      = Some (10 ^ Suc k - 1, Suc k)"
    by (simp add: int_digits_nines)
  have val: "int (10 ^ Suc k - 1) = 10 ^ Suc k - 1"
    by (simp add: of_nat_diff)
  have "int_literal mx (replicate (Suc k) (CHR ''9''))
      = (if mx \<noteq> 0 \<and> mx < Suc k then None else Some (10 ^ Suc k - 1))"
    by (simp add: int_literal_def is_digit_def digit_val_def nines)
  moreover have "rev (dropWhile int_isspace (rev (dropWhile int_isspace
      (replicate (Suc k) (CHR ''9''))))) = CHR ''9'' # replicate k (CHR ''9'')"
    by (simp add: int_isspace_def dropWhile_replicate del: replicate.simps)
       simp
  ultimately show ?thesis
    unfolding py_int_def using val by (simp del: power_Suc)
qed

text \<open>The fields of a line that starts with 400 or with 4301 nines.\<close>

lemma split_nines:
  "py_split CHR '' '' (py_strip (replicate (Suc k) (CHR ''9'') @ '' 5 y''))
     = [replicate (Suc k) (CHR ''9''), ''5'', ''y'']"
proof -
  have "py_strip (replicate (Suc k) (CHR ''9'') @ '' 5 y'')
      = replicate (Suc k) (CHR ''9'') @ '' 5 y''"
    by (simp add: py_strip_def py_isspace_def)
  moreover have "py_split CHR '' '' (replicate (Suc k) (CHR ''9'') @ CHR '' '' # ''5 y'')
      = replicate (Suc k) (CHR ''9'') # py_split CHR '' '' ''5 y''"
    by (rule py_split_append_sep) simp
  ultimately show ?thesis by simp
qed

lemma nines_examples:
  "py_split CHR '' '' (py_strip (replicate 400 (CHR ''9'') @ '' 5 y''))
     = [replicate 400 (CHR ''9''), ''5'', ''y'']"
  "py_split CHR '' '' (py_strip (replicate 4301 (CHR ''9'') @ '' 5 y''))
     = [replicate 4301 (CHR ''9''), ''5'', ''y'']"
  "py_int 4300 (replicate 400 (CHR ''9'')) = Some (10 ^ 400 - 1)"
  "py_int 4300 (replicate 4301 (CHR ''9'')) = None"
  using split_nines[of 399] split_nines[of 4300] py_int_nines[of 4300 399]
    py_int_nines[of 4300 4300]
  by simp_all

subsection \<open>Align.build\<close>

lemma read_align_example:
  "read_align 4300 [''0 1000 sp'', ''1000 2000 hello'', ''2000 2500 sil'']
     = Inr [(0, 1, ''sp''), (1, 2, ''hello''), (2, 5 / 2, ''sil'')]"
  "read_align 0 [''0 1000 sp'', ''1000 2000 hello'', ''2000 2500 sil'']
     = Inr [(0, 1, ''sp''), (1, 2, ''hello''), (2, 5 / 2, ''sil'')]"
  by (simp_all add: read_align_def split_examples align_entry_def py_index_def py_int_examples
        py_truediv_small)

text \<open>
  C6. For every list of alignment records, \<open>Align.build\<close> leaves in \<open>self.align\<close> the
  records whose token is neither "sp" nor "sil", in their order, and in
  \<open>self.sentence\<close> the tokens that are neither, joined by single spaces, whether or not
  the label function or the padding raises afterwards. On the three lines
  "0 1000 sp", "1000 2000 hello", "2000 2500 sil" the sentence is "hello" and
  \<open>self.align\<close> holds the "hello" record only, with the interpreter's limit of 4300
  digits for \<open>int\<close> and with no limit.
\<close>

theorem build_strips_fillers:
  "align (fst (build self a)) =
     Some [r \<leftarrow> a. snd (snd r) \<noteq> ''sp'' \<and> snd (snd r) \<noteq> ''sil'']
   \<and> sentence (fst (build self a)) =
       Some (py_join '' '' [t \<leftarrow> map (\<lambda>r. snd (snd r)) a. t \<noteq> ''sp'' \<and> t \<noteq> ''sil''])
   \<and> align (fst (from_file 4300 self
         [''0 1000 sp'', ''1000 2000 hello'', ''2000 2500 sil'']))
       = Some [(1, 2, ''hello'')]
   \<and> sentence (fst (from_file 4300 self
         [''0 1000 sp'', ''1000 2000 hello'', ''2000 2500 sil'']))
       = Some ''hello''
   \<and> align (fst (from_file 0 self
         [''0 1000 sp'', ''1000 2000 hello'', ''2000 2500 sil'']))
       = Some [(1, 2, ''hello'')]
   \<and> sentence (fst (from_file 0 self
         [''0 1000 sp'', ''1000 2000 hello'', ''2000 2500 sil'']))
       = Some ''hello''"
proof -
  have gen: "align (fst (build self b)) =
       Some [r \<leftarrow> b. snd (snd r) \<noteq> ''sp'' \<and> snd (snd r) \<noteq> ''sil'']
     \<and> sentence (fst (build self b)) =
       Some (py_join '' '' [t \<leftarrow> map (\<lambda>r. snd (snd r)) b. t \<noteq> ''sp'' \<and> t \<noteq> ''sil''])"
    for b
    by (auto simp: build_def strip_def get_sentence_def Let_def filter_map comp_def
             split: sum.splits)
  show ?thesis
    using gen[of a] gen[of "[(0, 1, ''sp''), (1, 2, ''hello''), (2, 5 / 2, ''sil'')]"]
    by (simp add: from_file_def read_align_example)
qed

theorem build_strips_fillers_witness:
  "align (fst (build align_example
       [(0, 1, ''sil''), (1, 2, ''bin''), (2, 3, ''sp''), (3, 4, ''blue'')]))
     = Some [(1, 2, ''bin''), (3, 4, ''blue'')]
   \<and> sentence (fst (build align_example
       [(0, 1, ''sil''), (1, 2, ''bin''), (2, 3, ''sp''), (3, 4, ''blue'')]))
     = Some ''bin blue''"
  using build_strips_fillers[of align_example
      "[(0, 1, ''sil''), (1, 2, ''bin''), (2, 3, ''sp''), (3, 4, ''blue'')]"]
  by simp

subsection \<open>Align.get\_padded\_label\<close>

text \<open>
  C7. When the label is no longer than \<open>absolute_max_string_len\<close>,
  \<open>Align.get_padded_label\<close> returns an array of exactly that length: first the label,
  then \<open>-1\<close> in every remaining place. When the label is longer, the call raises
  (\<open>np.ones\<close> refuses the negative length) and no array is built.
\<close>

theorem get_padded_label_length:
  "(int (length lbl) \<le> absolute_max_string_len self \<longrightarrow>
      (\<exists>p. get_padded_label self lbl = Inr p
         \<and> int (length p) = absolute_max_string_len self
         \<and> take (length lbl) p = map rat_of_int lbl
         \<and> drop (length lbl) p = replicate (length p - length lbl) (- 1)))
   \<and> (absolute_max_string_len self < int (length lbl) \<longrightarrow>
        get_padded_label self lbl = Inl ValueError)"
  by (auto simp: get_padded_label_def np_ones_def)

theorem get_padded_label_length_witness:
  "(\<exists>p. get_padded_label align_example [3, 1, 4] = Inr p \<and> length p = 5
         \<and> take 3 p = [3, 1, 4] \<and> drop 3 p = [- 1, - 1])
   \<and> get_padded_label align_example [3, 1, 4, 1, 5, 9] = Inl ValueError"
proof -
  have le: "int (length [3, 1, 4 :: int]) \<le> absolute_max_string_len align_example"
    and gt: "absolute_max_string_len align_example < int (length [3, 1, 4, 1, 5, 9 :: int])"
    by (simp_all add: align_example_def)
  from get_padded_label_length[of "[3, 1, 4]" align_example] le
  obtain p where p: "get_padded_label align_example [3, 1, 4] = Inr p"
     "int (length p) = absolute_max_string_len align_example"
     "take (length [3, 1, 4 :: int]) p = map rat_of_int [3, 1, 4]"
     "drop (length [3, 1, 4 :: int]) p = replicate (length p - length [3, 1, 4 :: int]) (- 1)"
    by blast
  from p(2) have len: "length p = 5" by (simp add: align_example_def)
  have "drop 3 p = [- 1, - 1]" using p(4) len by (simp add: eval_nat_numeral)
  moreover have "take 3 p = [3, 1, 4]" using p(3) by (simp add: eval_nat_numeral)
  moreover have "get_padded_label align_example [3, 1, 4, 1, 5, 9] = Inl ValueError"
    using get_padded_label_length[of "[3, 1, 4, 1, 5, 9]" align_example] gt by blast
  ultimately show ?thesis using p(1) len by blast
qed

subsection \<open>Align.from\_file\<close>

lemma align_entry_Inr:
  assumes "3 \<le> length y"
    and "py_int mx (y ! 0) = Some a" "\<not> float_overflows (rat_of_int a / 1000)"
    and "py_int mx (y ! 1) = Some b" "\<not> float_overflows (rat_of_int b / 1000)"
  shows "align_entry mx y = Inr (rat_of_int a / 1000, rat_of_int b / 1000, y ! 2)"
  using assms by (auto simp: align_entry_def py_index_def py_truediv_def)

lemma align_entry_Inl:
  "\<not> (3 \<le> length y \<and> time_field_ok mx (y ! 0) \<and> time_field_ok mx (y ! 1))
     \<Longrightarrow> \<exists>e. align_entry mx y = Inl e"
  by (auto simp: align_entry_def py_index_def py_truediv_def time_field_ok_def
           split: option.splits)

lemma read_align_ok:
  assumes "list_all (well_formed_line mx) lines"
  shows "read_align mx lines = Inr (map (seconds_entry mx) lines)"
proof -
  have "map_err (align_entry mx) (map (\<lambda>x. py_split CHR '' '' (py_strip x)) lines)
        = Inr (map (\<lambda>y. (rat_of_int (the (py_int mx (y ! 0))) / 1000,
                           rat_of_int (the (py_int mx (y ! 1))) / 1000, y ! 2))
                 (map (\<lambda>x. py_split CHR '' '' (py_strip x)) lines))"
  proof (rule map_err_Inr)
    fix y assume "y \<in> set (map (\<lambda>x. py_split CHR '' '' (py_strip x)) lines)"
    then obtain x where x: "x \<in> set lines" "y = py_split CHR '' '' (py_strip x)" by auto
    with assms have "well_formed_line mx x" by (simp add: list_all_iff)
    with x(2) obtain a b
      where "3 \<le> length y"
        and "py_int mx (y ! 0) = Some a" "\<not> float_overflows (rat_of_int a / 1000)"
        and "py_int mx (y ! 1) = Some b" "\<not> float_overflows (rat_of_int b / 1000)"
      by (auto simp: well_formed_line_def time_field_ok_def Let_def split: option.splits)
    then show "align_entry mx y = Inr (rat_of_int (the (py_int mx (y ! 0))) / 1000,
                           rat_of_int (the (py_int mx (y ! 1))) / 1000, y ! 2)"
      using align_entry_Inr[of y mx a b] by simp
  qed
  then show ?thesis by (simp add: read_align_def seconds_entry_def Let_def comp_def)
qed

lemma read_align_bad:
  assumes "\<not> list_all (well_formed_line mx) lines"
  shows "\<exists>e. read_align mx lines = Inl e"
proof -
  from assms obtain x where x: "x \<in> set lines" "\<not> well_formed_line mx x"
    by (auto simp: list_all_iff)
  let ?y = "py_split CHR '' '' (py_strip x)"
  from x(2) obtain e where "align_entry mx ?y = Inl e"
    using align_entry_Inl[of ?y mx] by (auto simp: well_formed_line_def Let_def)
  moreover have "?y \<in> set (map (\<lambda>x. py_split CHR '' '' (py_strip x)) lines)"
    using x(1) by auto
  ultimately show ?thesis unfolding read_align_def by (rule map_err_Inl[rotated])
qed

text \<open>
  C8, as the claim states it, fails: a line of four fields is not rejected. The line
  "0 1000 hello world" splits into four fields and is read as the record
  \<open>(0, 1, "hello")\<close>; the fourth field is dropped.
\<close>

theorem read_align_extra_field_counterexample:
  "length (py_split CHR '' '' (py_strip ''0 1000 hello world'')) = 4
   \<and> read_align 4300 [''0 1000 hello world''] = Inr [(0, 1, ''hello'')]"
  by (simp add: read_align_def split_examples align_entry_def py_index_def py_int_examples
        py_truediv_small)

text \<open>
  C8, amended. The reading step of \<open>Align.from_file\<close> raises if and only if some line,
  stripped and split at single spaces, has fewer than three fields, or a first or second
  field that \<open>int\<close> rejects or whose integer divided by 1000 is too large for a float;
  fields after the third are ignored. When no line is such, each line gives the record
  of its first two fields divided by 1000 (milliseconds to seconds) and its third
  field. This holds for every value of the interpreter's limit on the digits of an
  integer literal.
\<close>

theorem read_align_fails_iff:
  "((\<exists>e. read_align mx lines = Inl e) \<longleftrightarrow> \<not> list_all (well_formed_line mx) lines)
   \<and> (list_all (well_formed_line mx) lines
        \<longrightarrow> read_align mx lines = Inr (map (seconds_entry mx) lines))"
  using read_align_ok read_align_bad by fastforce

theorem read_align_fails_iff_witness:
  "(\<exists>e. read_align 4300 [''0 1000 sp'', ''x 5 y''] = Inl e)
   \<and> (\<exists>e. read_align 4300 [''0 1000 sp'', replicate 400 (CHR ''9'') @ '' 5 y''] = Inl e)
   \<and> read_align 4300 [''0 1000 sp'', ''1000 2000 hello'']
       = Inr [(0, 1, ''sp''), (1, 2, ''hello'')]"
proof -
  have ok: "time_field_ok 4300 ''0''" "time_field_ok 4300 ''1000''"
      "time_field_ok 4300 ''2000''"
    by (simp_all add: time_field_ok_def py_int_examples float_overflows_def)
  have bad: "\<not> list_all (well_formed_line 4300) [''0 1000 sp'', ''x 5 y'']"
    by (simp add: well_formed_line_def split_examples time_field_ok_def py_int_examples)
  have "\<not> time_field_ok 4300 (replicate 400 (CHR ''9''))"
    by (simp add: time_field_ok_def nines_examples float_overflows_def)
  then have big: "\<not> list_all (well_formed_line 4300)
      [''0 1000 sp'', replicate 400 (CHR ''9'') @ '' 5 y'']"
    by (simp add: well_formed_line_def nines_examples)
  have good: "list_all (well_formed_line 4300) [''0 1000 sp'', ''1000 2000 hello'']"
    by (simp add: well_formed_line_def split_examples ok)
  have recs: "map (seconds_entry 4300) [''0 1000 sp'', ''1000 2000 hello'']
      = [(0, 1, ''sp''), (1, 2, ''hello'')]"
    by (simp add: seconds_entry_def split_examples py_int_examples)
  show ?thesis
    using read_align_fails_iff[of 4300 "[''0 1000 sp'', ''x 5 y'']"]
      read_align_fails_iff[of 4300 "[''0 1000 sp'', replicate 400 (CHR ''9'') @ '' 5 y'']"]
      read_align_fails_iff[of 4300 "[''0 1000 sp'', ''1000 2000 hello'']"] bad big good recs
    by simp
qed

text \<open>What the rejected lines raise: \<open>int("x")\<close> is a ValueError; 400 nines divided
  by 1000 overflow the float; and 4301 nines are refused by \<open>int\<close> under the limit of
  4300 digits.\<close>

lemma read_align_errors:
  "read_align 4300 [''x 5 y''] = Inl ValueError"
  "read_align 4300 [replicate 400 (CHR ''9'') @ '' 5 y''] = Inl OverflowError"
  "read_align 4300 [replicate 4301 (CHR ''9'') @ '' 5 y''] = Inl ValueError"
  by (simp_all add: read_align_def split_examples nines_examples align_entry_def py_index_def
        py_int_examples py_truediv_def float_overflows_def)

text \<open>Whitespace in a field: \<open>int\<close> drops a tab and \<open>0xA0\<close> but not \<open>0x1C\<close>, and
  \<open>strip\<close> drops all three at the ends of a line.\<close>

lemma py_int_whitespace:
  "py_int 4300 [CHR ''5'', CHR 0x09] = Some 5"
  "py_int 4300 [CHR 0xA0, CHR ''5''] = Some 5"
  "py_int 4300 [CHR 0x1C, CHR ''5''] = None"
  "py_strip [CHR 0xA0, CHR 0x1C, CHR ''5'', CHR 0x09, CHR 0x85] = ''5''"
  by code_simp+

section \<open>Properties of preprocess\<close>


text \<open>The loop invariant: the two sets stay disjoint and together they grow by the
  indices the loop has passed.\<close>

lemma preprocess_loop_sets:
  "preprocess_loop E t w (sp, s, f) xs = (w', Inr (sp', s', f')) \<Longrightarrow> distinct xs
     \<Longrightarrow> s \<inter> f = {} \<Longrightarrow> (s \<union> f) \<inter> set xs = {}
     \<Longrightarrow> s' \<inter> f' = {} \<and> s' \<union> f' = s \<union> f \<union> set xs"
proof (induction xs arbitrary: w sp s f)
  case Nil
  then show ?case by simp
next
  case (Cons x xs)
  let ?sp = "sp @ ''/'' @ ''s'' @ py_str x @ ''/''"
  obtain w1 r where r: "try_index E t w ?sp = (w1, r)" by (cases "try_index E t w ?sp")
  show ?case
  proof (cases r)
    case None
    with r Cons.prems(1)
    have "preprocess_loop E t w1 (?sp, insert x s, f) xs = (w', Inr (sp', s', f'))"
      by (simp add: Let_def)
    from Cons.IH[OF this] Cons.prems(2-4) show ?thesis by auto
  next
    case (Some e)
    with r Cons.prems(1) have e: "e = OSError"
      by (auto simp: Let_def split: if_splits)
    with Some r Cons.prems(1)
    have "preprocess_loop E t w1 (?sp, s, insert x f) xs = (w', Inr (sp', s', f'))"
      by (simp add: Let_def)
    from Cons.IH[OF this] Cons.prems(2-4) show ?thesis by auto
  qed
qed


lemma preprocess_Inr:
  assumes "preprocess E w from_idx to_idx params = (w', Inr (succ, fail))"
  obtains src tgt sp where "params ''src_path'' = Some src" "params ''tgt_path'' = Some tgt"
    "preprocess_loop E tgt w (src, {}, {}) [from_idx..to_idx - 1] = (w', Inr (sp, succ, fail))"
  using assms by (auto simp: preprocess_def split: option.splits prod.splits sum.splits)


subsection \<open>The directory searched for an index\<close>

text \<open>
  C4. The claim is that the videos processed for an index \<open>idx\<close> are those under
  \<open>src_path/s{idx}/\<close>, whatever indices came before. The code does not do this:
  line 299 assigns the directory of the index to \<open>source_path\<close> itself, so the
  directory of the next index is built on the directory of the one before. In
  \<open>preprocess(1, 3, {'src_path': 'data', 'tgt_path': 'out'})\<close> on a disk that holds
  \<open>data/s1/a.mpg\<close> and \<open>data/s2/b.mpg\<close>, the directories walked are \<open>data/s1/\<close> and
  \<open>data/s1//s2/\<close>; \<open>data/s2/b.mpg\<close> is never processed, and index 2 is reported as
  succeeded.
\<close>

theorem preprocess_source_path_accumulates:
  "preprocess disk_example ([], []) 1 3 params_example
     = (([''data/s1/'', ''data/s1//s2/''], [''data/s1/a.mpg'']), Inr ({1, 2}, {}))"
  by code_simp

subsection \<open>Failure is scoped to one index\<close>


text \<open>On the faulty disk, \<open>preprocess(1, 3, ...)\<close> returns \<open>({2}, {1})\<close>: index 1
  raised OSError, index 2 found no file.\<close>

lemma preprocess_faulty_disk:
  "preprocess faulty_disk [] 1 3 params_example
     = ([''data/s1/a.mpg'', ''data/s1/locked.mpg''], Inr ({2}, {1}))"
  by code_simp


subsection \<open>The two sets partition the range\<close>

text \<open>
  C10. When \<open>preprocess(from_idx, to_idx, params)\<close> returns \<open>(succ, fail)\<close>, the two
  sets are disjoint and their union is the set of the integers from \<open>from_idx\<close> up to
  \<open>to_idx - 1\<close>.
\<close>

theorem preprocess_partitions_range:
  assumes "preprocess E w from_idx to_idx params = (w', Inr (succ, fail))"
  shows "succ \<inter> fail = {} \<and> succ \<union> fail = {from_idx..<to_idx}"
proof -
  from assms obtain src tgt sp where
    loop: "preprocess_loop E tgt w (src, {}, {}) [from_idx..to_idx - 1]
             = (w', Inr (sp, succ, fail))"
    by (rule preprocess_Inr)
  have "succ \<inter> fail = {} \<and> succ \<union> fail = {} \<union> {} \<union> set [from_idx..to_idx - 1]"
    by (rule preprocess_loop_sets[OF loop]) simp_all
  moreover have "set [from_idx..to_idx - 1] = {from_idx..<to_idx}" by auto
  ultimately show ?thesis by simp
qed

theorem preprocess_partitions_range_witness:
  "snd (preprocess faulty_disk [] 1 3 params_example) = Inr ({2}, {1})
   \<and> {2 :: int} \<inter> {1} = {} \<and> {2 :: int} \<union> {1} = {1..<3}"
  using preprocess_partitions_range[OF preprocess_faulty_disk] preprocess_faulty_disk
  by simp

section \<open>Properties of Video.get\_frames\_mouth\<close>

lemma enumerate_drop:
  "map snd [ip \<leftarrow> enumerate n xs. \<not> fst ip < k] = drop (k - n) xs"
proof (induction xs arbitrary: n)
  case Nil
  then show ?case by simp
next
  case (Cons x xs)
  show ?case
  proof (cases "n < k")
    case True
    then have "k - n = Suc (k - Suc n)" by simp
    with True Cons.IH[of "Suc n"] show ?thesis by simp
  next
    case False
    then have "k - n = 0" "k - Suc n = 0" by simp_all
    with False Cons.IH[of "Suc n"] show ?thesis by simp
  qed
qed

lemma mouth_points_drop: "mouth_points parts = drop 48 parts"
  by (simp add: mouth_points_def enumerate_drop)

subsection \<open>The example detectors, predictors and resize\<close>

lemma detect_first_only:
  "detect_shape first_only_detector p (frame_example k) = (if k = 0 then Some (p (frame_example 0) ()) else None)"
  by (simp add: detect_shape_def first_only_detector_def frame_example_def)

lemma detect_always: "detect_shape always_detector p f = Some (p f ())"
  by (simp add: detect_shape_def always_detector_def)

lemma mouth_predictor_points:
  "mouth_points (mouth_predictor f d) = replicate 10 (20, 50) @ replicate 10 (80, 50)"
  by (simp add: mouth_points_drop mouth_predictor_def)

lemma moving_predictor_points:
  "mouth_points (moving_predictor (frame_example k) d)
     = replicate 10 (20 + int k, 50) @ replicate 10 (80 + int k, 50)"
  by (simp add: mouth_points_drop moving_predictor_def frame_example_def)

lemma normalize_ratio_20_80:
  assumes "Min (set (map fst pts)) = 20" "Max (set (map fst pts)) = 80"
  shows "normalize_ratio_of pts = Inr (100 / 79)"
  using assms by (simp add: normalize_ratio_of_def mouth_width_def horizontal_pad_def Let_def)

lemma ratio_mouth_predictor:
  "normalize_ratio_of (replicate 10 (20, 50) @ replicate 10 (80, 50)) = Inr (100 / 79)"
  by (rule normalize_ratio_20_80) simp_all

lemma ratio_moving_4:
  "normalize_ratio_of (replicate 10 (24, 50) @ replicate 10 (84, 50)) = Inr (2500 / 2013)"
  by (simp add: normalize_ratio_of_def mouth_width_def horizontal_pad_def Let_def)

lemma crop2_two_axes: "\<exists>c. crop2 \<lparr>shape = [h, w], item = g\<rparr> t b l r = Inr c"
  by (simp add: crop2_def Let_def)

lemma mouth_crop_example:
  assumes "1 / 100 \<le> r"
  shows "\<exists>c. mouth_crop resize_example r (frame_example k) pts = Inr c"
proof -
  have "1 \<le> rat_of_nat 100 * r" using assms by simp
  then have "1 \<le> \<lfloor>rat_of_nat 100 * r\<rfloor>" by (simp add: le_floor_iff)
  moreover have "0 \<le> rat_of_nat 100 * r" using assms by simp
  ultimately have pos: "0 < py_trunc (rat_of_nat 100 * r)" by (simp add: py_trunc_def)
  then have "resize_example (frame_example k) (py_trunc (rat_of_nat 100 * r), py_trunc (rat_of_nat 100 * r))
      = Inr \<lparr>shape = [nat (py_trunc (rat_of_nat 100 * r)), nat (py_trunc (rat_of_nat 100 * r))],
             item = item (frame_example k)\<rparr>"
    by (simp add: resize_example_def)
  moreover have "shape (frame_example k) = [100, 100]" by (simp add: frame_example_def)
  ultimately show ?thesis
    unfolding mouth_crop_def Let_def py_index_def
    using crop2_two_axes by simp
qed

lemma truncs: "py_trunc (10000 / 79) = 126"
  "py_trunc (3025 / 79) = 38" "py_trunc (6975 / 79) = 88"
  "py_trunc (1050 / 79) = 13" "py_trunc (8950 / 79) = 113"
  by (simp_all add: py_trunc_def floor_eq_iff)

lemma np_mean_mouth_predictor:
  "np_mean (map fst (replicate 10 (20, 50) @ replicate 10 (80, 50))) = 50"
  "np_mean (map snd (replicate 10 (20, 50) @ replicate 10 (80, 50))) = 50"
  by (simp_all add: np_mean_def sum_list_replicate)

lemma crop_126: "crop2 \<lparr>shape = [126, 126], item = g\<rparr> 38 88 13 113
   = Inr \<lparr>shape = [50, 100], item = (\<lambda>idx. g ((hd idx + 38) # (hd (tl idx) + 13) # tl (tl idx)))\<rparr>"
  by (simp add: crop2_def slice_bound_def Let_def)

lemma resize_126: "resize_example (frame_example k) (126, 126)
    = Inr \<lparr>shape = [126, 126], item = (\<lambda>idx. k)\<rparr>"
  by (simp add: resize_example_def frame_example_def)

lemma mouth_crop_50_100:
  "\<exists>c. mouth_crop resize_example (100 / 79) (frame_example k)
      (replicate 10 (20, 50) @ replicate 10 (80, 50)) = Inr c \<and> shape c = [50, 100]"
  unfolding mouth_crop_def np_mean_mouth_predictor Let_def mouth_height_def mouth_width_def
  by (simp add: py_index_def frame_example_def[of k, THEN arg_cong[of _ _ shape]]
        truncs resize_126 crop_126)

lemma frame_step_mouth_predictor:
  "\<exists>c. frame_step resize_example nr (frame_example k) (mouth_predictor f d)
      = Inr (Some (100 / 79), c) \<and> shape c = [50, 100]"
  if "nr = None \<or> nr = Some (100 / 79)"
proof -
  obtain c where c: "mouth_crop resize_example (100 / 79) (frame_example k)
      (replicate 10 (20, 50) @ replicate 10 (80, 50)) = Inr c" "shape c = [50, 100]"
    using mouth_crop_50_100 by blast
  from that show ?thesis
    by (auto simp: frame_step_def mouth_predictor_points ratio_mouth_predictor c)
qed

subsection \<open>A frame without a detection\<close>

lemma mouth_loop_abort:
  "k < length rest \<Longrightarrow> detect_shape d p (rest ! k) = None
     \<Longrightarrow> mouth_loop d p i F nr acc (take k rest) = Inr r
     \<Longrightarrow> mouth_loop d p i F nr acc rest = Inr F"
proof (induction rest arbitrary: k nr acc)
  case Nil
  then show ?case by simp
next
  case (Cons f fs)
  show ?case
  proof (cases k)
    case 0
    with Cons.prems(2) show ?thesis by simp
  next
    case (Suc k')
    show ?thesis
    proof (cases "detect_shape d p f")
      case None
      then show ?thesis by simp
    next
      case (Some parts)
      with Cons.prems(3) Suc obtain nr' c where st: "frame_step i nr f parts = Inr (nr', c)"
        and run: "mouth_loop d p i F nr' (acc @ [c]) (take k' fs) = Inr r"
        by (auto split: sum.splits)
      from Cons.prems(1,2) Suc have "k' < length fs" "detect_shape d p (fs ! k') = None"
        by simp_all
      from Cons.IH[OF this run] Some st show ?thesis by simp
    qed
  qed
qed

text \<open>
  C1, as the claim states it, fails: a frame before the one without a detection can
  raise, and then nothing is returned. In a clip of two frames where the mouth points
  found in the first all have \<open>x = 0\<close> and the second has no detection,
  \<open>mouth_right - mouth_left\<close> is \<open>0.0\<close> and the division on line 156 raises
  ZeroDivisionError before the second frame is looked at.
\<close>

theorem get_frames_mouth_raises_counterexample:
  "detect_shape first_only_detector degenerate_predictor
       ([frame_example 0, frame_example 1] ! 1) = None
   \<and> get_frames_mouth first_only_detector degenerate_predictor resize_example
        [frame_example 0, frame_example 1] = Inl ZeroDivisionError"
  by (simp add: get_frames_mouth_def detect_shape_def first_only_detector_def frame_example_def
      frame_step_def mouth_points_drop degenerate_predictor_def normalize_ratio_of_def
      horizontal_pad_def Let_def)

text \<open>
  C1, amended. If the frame at position \<open>k\<close> yields no detection and the loop has
  passed the frames before it without raising, \<open>Video.get_frames_mouth\<close> returns the
  whole input sequence as it is, whatever was cropped before. In particular it returns
  the input when the first frame yields no detection, and when no frame does.
\<close>

theorem get_frames_mouth_aborts:
  "(k < length frames \<and> detect_shape detector predictor (frames ! k) = None
      \<and> (\<exists>r. mouth_loop detector predictor imresize frames None [] (take k frames) = Inr r)
     \<longrightarrow> get_frames_mouth detector predictor imresize frames = Inr frames)
   \<and> (frames \<noteq> [] \<and> detect_shape detector predictor (hd frames) = None
     \<longrightarrow> get_frames_mouth detector predictor imresize frames = Inr frames)
   \<and> ((\<forall>f \<in> set frames. detect_shape detector predictor f = None)
     \<longrightarrow> get_frames_mouth detector predictor imresize frames = Inr frames)"
proof (intro conjI impI)
  assume "k < length frames \<and> detect_shape detector predictor (frames ! k) = None
      \<and> (\<exists>r. mouth_loop detector predictor imresize frames None [] (take k frames) = Inr r)"
  then show "get_frames_mouth detector predictor imresize frames = Inr frames"
    unfolding get_frames_mouth_def using mouth_loop_abort by blast
next
  assume "frames \<noteq> [] \<and> detect_shape detector predictor (hd frames) = None"
  then show "get_frames_mouth detector predictor imresize frames = Inr frames"
    by (cases frames) (simp_all add: get_frames_mouth_def)
next
  assume "\<forall>f \<in> set frames. detect_shape detector predictor f = None"
  then show "get_frames_mouth detector predictor imresize frames = Inr frames"
    by (cases frames) (simp_all add: get_frames_mouth_def)
qed

theorem get_frames_mouth_aborts_witness:
  "get_frames_mouth first_only_detector mouth_predictor resize_example
      [frame_example 0, frame_example 0, frame_example 1]
     = Inr [frame_example 0, frame_example 0, frame_example 1]
   \<and> get_frames_mouth first_only_detector mouth_predictor resize_example
      [frame_example 1, frame_example 2] = Inr [frame_example 1, frame_example 2]"
proof -
  let ?F = "[frame_example 0, frame_example 0, frame_example 1]"
  let ?G = "[frame_example 1, frame_example 2]"
  obtain c0 where c0: "frame_step resize_example None (frame_example 0)
      (mouth_predictor (frame_example 0) ()) = Inr (Some (100 / 79), c0)"
    using frame_step_mouth_predictor[of None] by blast
  obtain c1 where c1: "frame_step resize_example (Some (100 / 79)) (frame_example 0)
      (mouth_predictor (frame_example 0) ()) = Inr (Some (100 / 79), c1)"
    using frame_step_mouth_predictor[of "Some (100 / 79)"] by blast
  have run: "\<exists>r. mouth_loop first_only_detector mouth_predictor resize_example ?F None []
      (take 2 ?F) = Inr r"
    by (simp add: detect_first_only c0 c1)
  have none: "detect_shape first_only_detector mouth_predictor (?F ! 2) = None"
    by (simp add: detect_first_only)
  have all: "\<forall>f \<in> set ?G. detect_shape first_only_detector mouth_predictor f = None"
    by (simp add: detect_first_only)
  from get_frames_mouth_aborts[of 2 ?F first_only_detector mouth_predictor resize_example]
    run none
  have "get_frames_mouth first_only_detector mouth_predictor resize_example ?F = Inr ?F"
    by simp
  moreover
  from get_frames_mouth_aborts[of 0 ?G first_only_detector mouth_predictor resize_example] all
  have "get_frames_mouth first_only_detector mouth_predictor resize_example ?G = Inr ?G"
    by blast
  ultimately show ?thesis by simp
qed

subsection \<open>One ratio for the clip\<close>

lemma frame_step_Some:
  "frame_step i (Some r) f parts = Inr (nr', c)
     \<Longrightarrow> nr' = Some r \<and> mouth_crop i r f (mouth_points parts) = Inr c"
  by (auto simp: frame_step_def Let_def split: if_splits sum.splits)

lemma frame_step_None:
  "frame_step i None f parts = Inr (nr', c)
     \<Longrightarrow> \<exists>r. normalize_ratio_of (mouth_points parts) = Inr r \<and> nr' = Some r
           \<and> mouth_crop i r f (mouth_points parts) = Inr c"
  by (auto simp: frame_step_def Let_def split: if_splits sum.splits)

lemma mouth_loop_fixed_ratio:
  "mouth_loop d p i F (Some r) acc fs = Inr out
     \<Longrightarrow> \<forall>f \<in> set fs. detect_shape d p f \<noteq> None
     \<Longrightarrow> map Inr out = map Inr acc
           @ map (\<lambda>f. mouth_crop i r f (mouth_points (the (detect_shape d p f)))) fs"
proof (induction fs arbitrary: acc)
  case Nil
  then show ?case by simp
next
  case (Cons f fs)
  from Cons.prems(2) obtain parts where parts: "detect_shape d p f = Some parts" by auto
  with Cons.prems(1) obtain nr' c where st: "frame_step i (Some r) f parts = Inr (nr', c)"
    and run: "mouth_loop d p i F nr' (acc @ [c]) fs = Inr out"
    by (auto split: sum.splits)
  from frame_step_Some[OF st] have nr': "nr' = Some r"
    and c: "mouth_crop i r f (mouth_points parts) = Inr c" by simp_all
  from Cons.IH[OF run[unfolded nr']] Cons.prems(2) parts c show ?case by simp
qed

text \<open>
  C2. When every frame of a clip yields a detection and \<open>Video.get_frames_mouth\<close>
  returns, \<open>normalize_ratio\<close> is the value computed from the mouth points of the first
  frame, and every output frame, the first and all later ones, is the input frame
  resized and cropped with that one value and the frame's own mouth points (so its own
  centroid).
\<close>

theorem normalize_ratio_fixed:
  assumes ret: "get_frames_mouth detector predictor imresize (f0 # fs) = Inr out"
    and det: "\<forall>f \<in> set (f0 # fs). detect_shape detector predictor f \<noteq> None"
  shows "\<exists>r. normalize_ratio_of (mouth_points (the (detect_shape detector predictor f0))) = Inr r
     \<and> map Inr out =
         map (\<lambda>f. mouth_crop imresize r f
                    (mouth_points (the (detect_shape detector predictor f)))) (f0 # fs)"
proof -
  from det obtain parts where parts: "detect_shape detector predictor f0 = Some parts" by auto
  with ret obtain nr' c where st: "frame_step imresize None f0 parts = Inr (nr', c)"
    and run: "mouth_loop detector predictor imresize (f0 # fs) nr' ([] @ [c]) fs = Inr out"
    by (auto simp: get_frames_mouth_def split: sum.splits)
  from frame_step_None[OF st] obtain r
    where r: "normalize_ratio_of (mouth_points parts) = Inr r" "nr' = Some r"
      "mouth_crop imresize r f0 (mouth_points parts) = Inr c" by blast
  from mouth_loop_fixed_ratio[OF run[unfolded r(2)]] det
  have "map Inr out = map Inr ([] @ [c])
      @ map (\<lambda>f. mouth_crop imresize r f
                    (mouth_points (the (detect_shape detector predictor f)))) fs"
    by simp
  with r parts show ?thesis by simp
qed

theorem normalize_ratio_fixed_witness:
  "\<exists>out. get_frames_mouth always_detector moving_predictor resize_example moving_clip = Inr out
      \<and> map Inr out = map (\<lambda>f. mouth_crop resize_example (100 / 79) f
                                  (mouth_points (moving_predictor f ()))) moving_clip
      \<and> normalize_ratio_of (mouth_points (moving_predictor (moving_clip ! 2) ()))
          = Inr (2500 / 2013)"
proof -
  have r0: "normalize_ratio_of (mouth_points (moving_predictor (frame_example 0) ()))
      = Inr (100 / 79)"
    by (simp add: moving_predictor_points ratio_mouth_predictor)
  have ne: "mouth_points (moving_predictor (frame_example k) ()) \<noteq> []" for k
    by (simp add: moving_predictor_points)
  have step: "\<exists>c. frame_step resize_example nr (frame_example k)
      (moving_predictor (frame_example k) ()) = Inr (Some (100 / 79), c)"
    if "nr = Some (100 / 79) \<or> (nr = None \<and> k = 0)" for nr k
  proof -
    obtain c where "mouth_crop resize_example (100 / 79) (frame_example k)
        (mouth_points (moving_predictor (frame_example k) ())) = Inr c"
      using mouth_crop_example[of "100 / 79"] by auto
    with that r0 ne[of k] show ?thesis
      by (auto simp: frame_step_def Let_def)
  qed
  obtain c0 where c0: "frame_step resize_example None (frame_example 0)
      (moving_predictor (frame_example 0) ()) = Inr (Some (100 / 79), c0)"
    using step[of None 0] by auto
  obtain c1 where c1: "frame_step resize_example (Some (100 / 79)) (frame_example 2)
      (moving_predictor (frame_example 2) ()) = Inr (Some (100 / 79), c1)"
    using step[of "Some (100 / 79)" 2] by auto
  obtain c2 where c2: "frame_step resize_example (Some (100 / 79)) (frame_example 4)
      (moving_predictor (frame_example 4) ()) = Inr (Some (100 / 79), c2)"
    using step[of "Some (100 / 79)" 4] by auto
  have run: "get_frames_mouth always_detector moving_predictor resize_example moving_clip
      = Inr [c0, c1, c2]"
    by (simp add: get_frames_mouth_def moving_clip_def detect_always c0 c1 c2)
  have det: "\<forall>f \<in> set (frame_example 0 # [frame_example 2, frame_example 4]).
      detect_shape always_detector moving_predictor f \<noteq> None"
    by (simp add: detect_always)
  from normalize_ratio_fixed[OF run[unfolded moving_clip_def] det]
  obtain r where r: "normalize_ratio_of (mouth_points
        (the (detect_shape always_detector moving_predictor (frame_example 0)))) = Inr r"
    and crops: "map Inr [c0, c1, c2] = map (\<lambda>f. mouth_crop resize_example r f
        (mouth_points (the (detect_shape always_detector moving_predictor f))))
          [frame_example 0, frame_example 2, frame_example 4]"
    by blast
  from r r0 have "r = 100 / 79" unfolding detect_always by simp
  with crops have "map Inr [c0, c1, c2] = map (\<lambda>f. mouth_crop resize_example (100 / 79) f
      (mouth_points (moving_predictor f ()))) moving_clip"
    unfolding detect_always moving_clip_def by simp
  moreover have "normalize_ratio_of (mouth_points (moving_predictor (moving_clip ! 2) ()))
          = Inr (2500 / 2013)"
    by (simp add: moving_clip_def moving_predictor_points ratio_moving_4)
  ultimately show ?thesis using run by blast
qed

subsection \<open>The clip with a face in its first frame only\<close>

text \<open>
  C3, as the claim states it, fails twice. In a clip of three frames of 100 by 100
  pixels where only frame 0 yields landmarks, with mouth points at \<open>x = 20\<close> and
  \<open>x = 80\<close> and centroid \<open>(50, 50)\<close>, the value of \<open>normalize_ratio\<close> is
  \<open>100 / (80 * 1.19 - 20 * 0.81) = 100 / 79\<close>, not \<open>100 / (60 * 1.19 * 2)\<close>, and the
  function returns the three input frames of 100 by 100, not three frames of 50 by 100.
\<close>

theorem get_frames_mouth_example_counterexample:
  "get_frames_mouth first_only_detector mouth_predictor resize_example clip_example
      = Inr clip_example
   \<and> map shape clip_example = [[100, 100], [100, 100], [100, 100]]
   \<and> normalize_ratio_of (mouth_points (mouth_predictor (clip_example ! 0) ())) = Inr (100 / 79)
   \<and> (100 / 79 :: rat) \<noteq> 100 / (60 * (119 / 100) * 2)"
proof -
  obtain c where st: "frame_step resize_example None (frame_example 0)
      (mouth_predictor (frame_example 0) ()) = Inr (Some (100 / 79), c)"
    using frame_step_mouth_predictor[of None] by blast
  have "get_frames_mouth first_only_detector mouth_predictor resize_example clip_example
      = Inr clip_example"
    by (simp add: get_frames_mouth_def clip_example_def detect_first_only st)
  moreover have "map shape clip_example = [[100, 100], [100, 100], [100, 100]]"
    by (simp add: clip_example_def frame_example_def)
  moreover have "normalize_ratio_of (mouth_points (mouth_predictor (clip_example ! 0) ()))
      = Inr (100 / 79)"
    by (simp add: mouth_predictor_points ratio_mouth_predictor)
  moreover have "(100 / 79 :: rat) \<noteq> 100 / (60 * (119 / 100) * 2)" by simp
  ultimately show ?thesis by blast
qed

text \<open>
  C3, amended. For a clip of three frames where frame 0 yields mouth points whose
  least \<open>x\<close> is 20 and greatest \<open>x\<close> is 80 and frame 1 yields no detection,
  \<open>Video.get_frames_mouth\<close> computes \<open>normalize_ratio = 100 / 79\<close>, by
  \<open>mouth_width / (max(x) * 1.19 - min(x) * 0.81)\<close>, and, when resizing and cropping
  frame 0 raises nothing, returns the three input frames unchanged.
\<close>

theorem get_frames_mouth_first_frame_only:
  assumes det0: "detect_shape detector predictor f0 = Some parts"
    and lo: "Min (set (map fst (mouth_points parts))) = 20"
    and hi: "Max (set (map fst (mouth_points parts))) = 80"
    and ne: "mouth_points parts \<noteq> []"
    and crop0: "mouth_crop imresize (100 / 79) f0 (mouth_points parts) = Inr c"
    and det1: "detect_shape detector predictor f1 = None"
  shows "normalize_ratio_of (mouth_points parts) = Inr (100 / 79)
     \<and> get_frames_mouth detector predictor imresize [f0, f1, f2] = Inr [f0, f1, f2]"
proof -
  have r: "normalize_ratio_of (mouth_points parts) = Inr (100 / 79)"
    using lo hi by (rule normalize_ratio_20_80)
  then have "frame_step imresize None f0 parts = Inr (Some (100 / 79), c)"
    using ne crop0 by (simp add: frame_step_def)
  then show ?thesis
    using r det0 det1 by (simp add: get_frames_mouth_def)
qed

theorem get_frames_mouth_first_frame_only_witness:
  "normalize_ratio_of (mouth_points (mouth_predictor (frame_example 0) ())) = Inr (100 / 79)
   \<and> get_frames_mouth first_only_detector mouth_predictor resize_example
        [frame_example 0, frame_example 3, frame_example 5]
       = Inr [frame_example 0, frame_example 3, frame_example 5]
   \<and> (\<exists>c. mouth_crop resize_example (100 / 79) (frame_example 0)
             (mouth_points (mouth_predictor (frame_example 0) ())) = Inr c
          \<and> shape c = [50, 100])"
proof -
  let ?parts = "mouth_predictor (frame_example 0) ()"
  have det0: "detect_shape first_only_detector mouth_predictor (frame_example 0) = Some ?parts"
    and det1: "detect_shape first_only_detector mouth_predictor (frame_example 3) = None"
    by (simp_all add: detect_first_only)
  have lo: "Min (set (map fst (mouth_points ?parts))) = 20"
    and hi: "Max (set (map fst (mouth_points ?parts))) = 80"
    and ne: "mouth_points ?parts \<noteq> []"
    by (simp_all add: mouth_predictor_points)
  obtain c where c: "mouth_crop resize_example (100 / 79) (frame_example 0)
      (mouth_points ?parts) = Inr c" "shape c = [50, 100]"
    using mouth_crop_50_100[of 0] by (auto simp: mouth_predictor_points)
  from get_frames_mouth_first_frame_only[OF det0 lo hi ne c(1) det1, of "frame_example 5"] c
  show ?thesis by blast
qed

section \<open>Properties of Video.set\_data\<close>

lemma data_frame_2d:
  assumes "shape f = [H, W]"
  shows "\<exists>g. data_frame f = Inr g \<and> shape g = [W, H, 1]
           \<and> (\<forall>w h. item g [w, h, 0] = item f [h, w])"
  using assms
  by (simp add: data_frame_def swapaxes_def ndim_def swap_idx_def np_array_def)

lemma data_frame_3d:
  assumes "shape f = [H, W, C]"
  shows "\<exists>g. data_frame f = Inr g \<and> shape g = [W, H, C]
           \<and> (\<forall>w h c. item g [w, h, c] = item f [h, w, c])"
  using assms
  by (simp add: data_frame_def swapaxes_def ndim_def swap_idx_def np_array_def)

lemma stack_roll_swap:
  assumes ne: "dfs \<noteq> []" and sh: "\<And>g. g \<in> set dfs \<Longrightarrow> shape g = [W, H, C]"
  shows "\<exists>a b c. np_array dfs = Inr a \<and> rollaxis a 3 = Inr b \<and> swapaxes b 2 3 = Inr c
           \<and> shape c = [C, length dfs, H, W]
           \<and> (\<forall>k t h w. item c [k, t, h, w] = item (dfs ! t) [w, h, k])"
proof -
  from ne obtain x xs where dfs: "dfs = x # xs" by (cases dfs) auto
  have all: "list_all (\<lambda>y. shape y = shape x) dfs"
    using sh dfs by (auto simp: list_all_iff)
  have shx: "shape x = [W, H, C]" using sh dfs by simp
  show ?thesis
    using all shx unfolding dfs
    by (simp add: np_array_def rollaxis_def swapaxes_def ndim_def swap_idx_def)
qed

lemma data_frames_ok:
  assumes "\<And>f. f \<in> set frames \<Longrightarrow> \<exists>g. data_frame f = Inr g \<and> P f g"
  shows "\<exists>dfs. map_err data_frame frames = Inr dfs \<and> length dfs = length frames
           \<and> (\<forall>t < length frames. P (frames ! t) (dfs ! t))"
  using assms
proof (induction frames)
  case Nil
  then show ?case by simp
next
  case (Cons f frames)
  from Cons.prems[of f] obtain g where g: "data_frame f = Inr g" "P f g" by auto
  from Cons.IH Cons.prems obtain dfs where dfs: "map_err data_frame frames = Inr dfs"
      "length dfs = length frames" "\<forall>t < length frames. P (frames ! t) (dfs ! t)"
    by auto
  have "\<forall>t < length (f # frames). P ((f # frames) ! t) ((g # dfs) ! t)"
    using g(2) dfs(3) by (auto simp: nth_Cons split: nat.splits)
  then show ?case using g(1) dfs(1,2) by auto
qed

lemma set_data_stack:
  assumes ne: "frames \<noteq> []"
    and each: "\<And>f. f \<in> set frames \<Longrightarrow>
        \<exists>g. data_frame f = Inr g
           \<and> (shape g = [W, H, C] \<and> (\<forall>w h c. c < C \<longrightarrow> item g [w, h, c] = v f h w c))"
  shows "\<exists>d. set_data self frames
                = (self\<lparr>data := Some d, length_v := Some (length frames)\<rparr>, None)
           \<and> shape d = [C, length frames, H, W]
           \<and> (\<forall>c t h w. c < C \<and> t < length frames \<longrightarrow>
                 item d [c, t, h, w] = v (frames ! t) h w c)"
proof -
  from data_frames_ok[of frames
      "\<lambda>f g. shape g = [W, H, C] \<and> (\<forall>w h c. c < C \<longrightarrow> item g [w, h, c] = v f h w c)",
      OF each]
  obtain dfs where dfs: "map_err data_frame frames = Inr dfs" "length dfs = length frames"
     "\<forall>t < length frames. shape (dfs ! t) = [W, H, C]
          \<and> (\<forall>w h c. c < C \<longrightarrow> item (dfs ! t) [w, h, c] = v (frames ! t) h w c)"
    by blast
  have ne': "dfs \<noteq> []" using ne dfs(2) by auto
  have sh: "shape g = [W, H, C]" if "g \<in> set dfs" for g
    using that dfs(2,3) by (auto simp: in_set_conv_nth)
  from stack_roll_swap[OF ne' sh]
  obtain a b c where abc: "np_array dfs = Inr a" "rollaxis a 3 = Inr b"
      "swapaxes b 2 3 = Inr c" "shape c = [C, length dfs, H, W]"
      "\<forall>k t h w. item c [k, t, h, w] = item (dfs ! t) [w, h, k]"
    by blast
  have "item c [k, t, h, w] = v (frames ! t) h w k" if "k < C" "t < length frames" for k t h w
    using abc(5) dfs(3) that by simp
  moreover have "set_data self frames
      = (self\<lparr>data := Some c, length_v := Some (length frames)\<rparr>, None)"
    using dfs(1,2) abc(1-3) by (simp add: set_data_def)
  moreover have "shape c = [C, length frames, H, W]" using abc(4) dfs(2) by simp
  ultimately show ?thesis by blast
qed

text \<open>
  C5. For a non-empty sequence of \<open>N\<close> frames that all have shape \<open>H x W\<close>, or all
  \<open>H x W x C\<close>, \<open>Video.set_data\<close> raises nothing, sets \<open>self.length\<close> to \<open>N\<close> and
  \<open>self.data\<close> to an array of shape \<open>(1, N, H, W)\<close>, respectively \<open>(C, N, H, W)\<close>,
  whose element at \<open>(c, t, h, w)\<close> is the element at \<open>(h, w)\<close>, respectively
  \<open>(h, w, c)\<close>, of frame \<open>t\<close>: the axes are permuted and no element is lost.
\<close>

theorem set_data_shape:
  assumes ne: "frames \<noteq> []"
  shows "((\<forall>f \<in> set frames. shape f = [H, W]) \<longrightarrow>
           (\<exists>d. set_data self frames
                   = (self\<lparr>data := Some d, length_v := Some (length frames)\<rparr>, None)
              \<and> shape d = [1, length frames, H, W]
              \<and> (\<forall>t h w. t < length frames \<and> h < H \<and> w < W \<longrightarrow>
                    item d [0, t, h, w] = item (frames ! t) [h, w])))
       \<and> ((\<forall>f \<in> set frames. shape f = [H, W, C]) \<longrightarrow>
           (\<exists>d. set_data self frames
                   = (self\<lparr>data := Some d, length_v := Some (length frames)\<rparr>, None)
              \<and> shape d = [C, length frames, H, W]
              \<and> (\<forall>c t h w. c < C \<and> t < length frames \<and> h < H \<and> w < W \<longrightarrow>
                    item d [c, t, h, w] = item (frames ! t) [h, w, c])))"
proof (intro conjI impI)
  assume two: "\<forall>f \<in> set frames. shape f = [H, W]"
  have "\<exists>g. data_frame f = Inr g \<and> (shape g = [W, H, 1]
      \<and> (\<forall>w h c. c < 1 \<longrightarrow> item g [w, h, c] = item f [h, w]))" if "f \<in> set frames" for f
    using data_frame_2d[of f H W] two that by auto
  from set_data_stack[OF ne this, where self = self]
  show "\<exists>d. set_data self frames
                   = (self\<lparr>data := Some d, length_v := Some (length frames)\<rparr>, None)
              \<and> shape d = [1, length frames, H, W]
              \<and> (\<forall>t h w. t < length frames \<and> h < H \<and> w < W \<longrightarrow>
                    item d [0, t, h, w] = item (frames ! t) [h, w])"
    by auto
next
  assume three: "\<forall>f \<in> set frames. shape f = [H, W, C]"
  have "\<exists>g. data_frame f = Inr g \<and> (shape g = [W, H, C]
      \<and> (\<forall>w h c. c < C \<longrightarrow> item g [w, h, c] = item f [h, w, c]))" if "f \<in> set frames" for f
    using data_frame_3d[of f H W C] three that by auto
  from set_data_stack[OF ne this, where self = self]
  show "\<exists>d. set_data self frames
                   = (self\<lparr>data := Some d, length_v := Some (length frames)\<rparr>, None)
              \<and> shape d = [C, length frames, H, W]
              \<and> (\<forall>c t h w. c < C \<and> t < length frames \<and> h < H \<and> w < W \<longrightarrow>
                    item d [c, t, h, w] = item (frames ! t) [h, w, c])"
    by auto
qed

theorem set_data_shape_witness:
  "(\<exists>d. set_data video_example grey_frames
           = (video_example\<lparr>data := Some d, length_v := Some 2\<rparr>, None)
        \<and> shape d = [1, 2, 2, 3] \<and> item d [0, 1, 1, 2] = [1, 1, 2])
   \<and> (\<exists>d. set_data video_example colour_frames
           = (video_example\<lparr>data := Some d, length_v := Some 2\<rparr>, None)
        \<and> shape d = [3, 2, 2, 3] \<and> item d [2, 1, 0, 1] = [1, 0, 1, 2])"
proof -
  have g: "grey_frames \<noteq> []" "\<forall>f \<in> set grey_frames. shape f = [2, 3]"
    by (simp_all add: grey_frames_def)
  have c: "colour_frames \<noteq> []" "\<forall>f \<in> set colour_frames. shape f = [2, 3, 3]"
    by (simp_all add: colour_frames_def)
  have lg: "length grey_frames = 2" and lc: "length colour_frames = 2"
    by (simp_all add: grey_frames_def colour_frames_def)
  have vg: "item (grey_frames ! 1) [1, 2] = [1, 1, 2]"
    and vc: "item (colour_frames ! 1) [0, 1, 2] = [1, 0, 1, 2]"
    by (simp_all add: grey_frames_def colour_frames_def)
  from set_data_shape[OF g(1), of 2 3 video_example] g(2)
  obtain d where d: "set_data video_example grey_frames
       = (video_example\<lparr>data := Some d, length_v := Some (length grey_frames)\<rparr>, None)"
     "shape d = [1, length grey_frames, 2, 3]"
     "\<forall>t h w. t < length grey_frames \<and> h < 2 \<and> w < 3 \<longrightarrow>
         item d [0, t, h, w] = item (grey_frames ! t) [h, w]"
    by blast
  from d(3) have "item d [0, 1, 1, 2] = item (grey_frames ! 1) [1, 2]"
    unfolding lg by simp
  with d(1,2) have one: "\<exists>d. set_data video_example grey_frames
           = (video_example\<lparr>data := Some d, length_v := Some 2\<rparr>, None)
        \<and> shape d = [1, 2, 2, 3] \<and> item d [0, 1, 1, 2] = [1, 1, 2]"
    unfolding lg vg by blast
  from set_data_shape[OF c(1), of 2 3 video_example 3] c(2)
  obtain e where e: "set_data video_example colour_frames
       = (video_example\<lparr>data := Some e, length_v := Some (length colour_frames)\<rparr>, None)"
     "shape e = [3, length colour_frames, 2, 3]"
     "\<forall>c t h w. c < 3 \<and> t < length colour_frames \<and> h < 2 \<and> w < 3 \<longrightarrow>
         item e [c, t, h, w] = item (colour_frames ! t) [h, w, c]"
    by blast
  from e(3) have "item e [2, 1, 0, 1] = item (colour_frames ! 1) [0, 1, 2]"
    unfolding lc by simp
  with e(1,2) have two: "\<exists>d. set_data video_example colour_frames
           = (video_example\<lparr>data := Some d, length_v := Some 2\<rparr>, None)
        \<and> shape d = [3, 2, 2, 3] \<and> item d [2, 1, 0, 1] = [1, 0, 1, 2]"
    unfolding lc vc by blast
  from one two show ?thesis by blast
qed

end
